theory Spec2Isabelle
  imports Complex_Main
begin

text \<open>
  A shallow embedding of the arithmetic and the checks of the layout templates in
  \<open>abs_templates_ec/serdes/tx_cml.py\<close>, of \<open>AmpBaseChain\<close> in \<open>test_scripts/analogbase.py\<close> and
  of \<open>rxcore_sch\<close> in \<open>layout_scripts/serdes.py\<close>. The layout framework the templates run on
  is not part of the repository: whatever the code asks of it is a parameter of the model.
  Python integers are \<open>int\<close>; \<open>//\<close> and \<open>%\<close> round towards minus infinity, as \<open>div\<close> and
  \<open>mod\<close> do. An exception is a value of the type \<open>py_error\<close>.
\<close>

section \<open>Python exceptions\<close>

text \<open>The exceptions that the modelled code can raise.\<close>

datatype py_error =
  ValueError | ZeroDivisionError | IndexError | TypeError | KeyError | AttributeError

section \<open>CMLCorePMOS: finger-count solving\<close>

text \<open>
  The part of \<open>AnalogBaseInfo\<close> that \<open>CMLCorePMOS._draw_layout_helper\<close> reads.
  The class belongs to the host framework, so its two members are parameters of the model:
  \<open>sd_pitch_unit\<close> is the source/drain pitch in resolution units and
  \<open>get_total_width fg guard_ring_nf\<close> is the width, in source/drain tracks, of a row of
  \<open>fg\<close> fingers.
\<close>

record layout_info =
  sd_pitch_unit :: int
  get_total_width :: "int \<Rightarrow> int \<Rightarrow> int"
  mconn_port_layer :: int

text \<open>
  The loop of lines 344 to 346:
  \<^verbatim>\<open>
  while cur_width > num_pitch:
      fg_tot -= 1
      cur_width = layout_info.get_total_width(fg_tot, guard_ring_nf=guard_ring_nf)
  \<close>
  The loop variables are \<open>fg_tot\<close> and \<open>cur_width\<close>. Nothing bounds the number of
  iterations, so the result is an option: \<open>None\<close> is the loop that runs forever.
\<close>

partial_function (option) fg_loop ::
  "(int \<Rightarrow> int \<Rightarrow> int) \<Rightarrow> int \<Rightarrow> int \<Rightarrow> int \<Rightarrow> int \<Rightarrow> (int \<times> int) option" where
  "fg_loop gtw guard_ring_nf num_pitch fg_tot cur_width =
     (if cur_width > num_pitch
      then fg_loop gtw guard_ring_nf num_pitch (fg_tot - 1) (gtw (fg_tot - 1) guard_ring_nf)
      else Some (fg_tot, cur_width))"

declare fg_loop.simps [code]


text \<open>Two framework instances used to evaluate the search on concrete inputs.\<close>

definition ex_info :: layout_info where
  "ex_info = \<lparr>sd_pitch_unit = 2,
     get_total_width = (\<lambda>fg guard_ring_nf. fg + 2 * guard_ring_nf + 2),
     mconn_port_layer = 3\<rparr>"

definition stuck_info :: layout_info where
  "stuck_info = \<lparr>sd_pitch_unit = 1,
     get_total_width = (\<lambda>fg guard_ring_nf. 5),
     mconn_port_layer = 3\<rparr>"

section \<open>CMLCorePMOS: track widths from the EM specs\<close>











section \<open>AmpBaseChain: placing the second amplifier\<close>

text \<open>
  What \<open>AmpBaseChain.draw_layout\<close> reads from the second master (its size, \<open>None\<close> when it
  has none, and its top layer) and from the grid (\<open>get_block_size\<close>, the block width and
  height of a layer in resolution units).
\<close>

record amp_master =
  master_size :: "(int \<times> int \<times> int) option"
  master_top_layer :: int

record amp_instance =
  inst_name :: string
  inst_loc :: "int \<times> int"

text \<open>
  Lines 156 to 161: \<open>x0\<close> starts as the right edge of X1 and, when the second master has
  a size, becomes \<open>(-x0 // xblk) * xblk\<close>. Python's \<open>//\<close> on integers is floor division,
  as is \<open>div\<close> on \<open>int\<close>; a zero block width raises ZeroDivisionError.
\<close>

definition inst2_x :: "(int \<Rightarrow> int \<times> int) \<Rightarrow> amp_master \<Rightarrow> int \<Rightarrow> py_error + int" where
  "inst2_x get_block_size master2 x0 =
     (case master_size master2 of
        None \<Rightarrow> Inr x0
      | Some sz \<Rightarrow>
          let xblk = fst (get_block_size (master_top_layer master2))
          in if xblk = 0 then Inl ZeroDivisionError else Inr (((- x0) div xblk) * xblk))"

text \<open>Lines 155 to 162: the two instances, X1 at the origin and X2 at \<open>(x0, 0)\<close>.\<close>

definition AmpBaseChain_draw_layout ::
  "(int \<Rightarrow> int \<times> int) \<Rightarrow> amp_master \<Rightarrow> int \<Rightarrow> py_error + amp_instance list" where
  "AmpBaseChain_draw_layout get_block_size master2 right_unit =
     (let inst1 = \<lparr>inst_name = ''X1'', inst_loc = (0, 0)\<rparr>
      in case inst2_x get_block_size master2 right_unit of
           Inl e \<Rightarrow> Inl e
         | Inr x0 \<Rightarrow> Inr [inst1, \<lparr>inst_name = ''X2'', inst_loc = (x0, 0)\<rparr>])"

text \<open>A second master with a size and a grid whose blocks are 8 units wide.\<close>

definition ex_master2 :: amp_master where
  "ex_master2 = \<lparr>master_size = Some (4, 1, 1), master_top_layer = 4\<rparr>"

definition ex_block_size :: "int \<Rightarrow> int \<times> int" where
  "ex_block_size layer_id = (8, 4)"

section \<open>String formatting and ranges\<close>

text \<open>Python's \<open>'%d' % i\<close>: the decimal digits of \<open>i\<close>, after a minus sign if negative.\<close>

definition digit_char :: "nat \<Rightarrow> char" where
  "digit_char d = ''0123456789'' ! d"

fun digits :: "nat \<Rightarrow> string" where
  "digits n = (if n < 10 then [digit_char n] else digits (n div 10) @ [digit_char (n mod 10)])"

declare digits.simps [simp del]

definition fmt_d :: "int \<Rightarrow> string" where
  "fmt_d i = (if i < 0 then CHR ''-'' # digits (nat (- i)) else digits (nat i))"

text \<open>Python's \<open>range(n)\<close>: the integers from 0 up to \<open>n - 1\<close>, none when \<open>n \<le> 0\<close>.\<close>

definition py_range :: "int \<Rightarrow> int list" where
  "py_range n = map int [0..<nat n]"

section \<open>LoadResistor: the resistor array and its pins\<close>

text \<open>
  Wires are kept symbolically. \<open>BotPort row col\<close> and \<open>TopPort row col\<close> are the two ports
  that the framework's \<open>get_res_ports(row, col)\<close> returns, \<open>ExportVm w\<close> is the wire that
  \<open>_export_to_vm\<close> makes from \<open>w\<close> and \<open>ConnectWires ws\<close> is the result of
  \<open>connect_wires\<close>.
\<close>

datatype wire = BotPort int int | TopPort int int | ExportVm wire | ConnectWires "wire list"

record pin =
  pin_name :: string
  pin_wire :: wire
  pin_show :: bool

text \<open>The array that \<open>draw_array\<close> was asked for, and the pins added by \<open>add_pin\<close>, in order.\<close>

record res_array =
  arr_nx :: int
  arr_ny :: int
  arr_pins :: "pin list"

text \<open>
  The body of the loop of lines 131 to 139 for the column \<open>idx\<close>, on the pins added so far:
  \<^verbatim>\<open>
  bot, top = self.get_res_ports(0, idx)
  bot = self._export_to_vm(bot)
  top = self._export_to_vm(top)
  if idx < ndum or idx >= nx + ndum:
      self.add_pin('dummy', self.connect_wires([bot, top]), show=show_pins)
  else:
      self.add_pin('bot<%d>' % (idx - ndum), bot, show=show_pins)
      self.add_pin('top<%d>' % (idx - ndum), top, show=show_pins)
  \<close>
\<close>

definition export_column :: "int \<Rightarrow> int \<Rightarrow> bool \<Rightarrow> int \<Rightarrow> pin list \<Rightarrow> pin list" where
  "export_column nx ndum show_pins idx pins =
     (let bot = ExportVm (BotPort 0 idx);
          top = ExportVm (TopPort 0 idx)
      in if idx < ndum \<or> idx \<ge> nx + ndum
         then pins @ [\<lparr>pin_name = ''dummy'', pin_wire = ConnectWires [bot, top],
                        pin_show = show_pins\<rparr>]
         else pins @ [\<lparr>pin_name = ''bot<'' @ fmt_d (idx - ndum) @ ''>'', pin_wire = bot,
                        pin_show = show_pins\<rparr>,
                      \<lparr>pin_name = ''top<'' @ fmt_d (idx - ndum) @ ''>'', pin_wire = top,
                        pin_show = show_pins\<rparr>])"

text \<open>
  \<open>LoadResistor.draw_layout\<close>, lines 122 to 139: \<open>draw_array(nx=nx + 2 * ndum, ny=1, ...)\<close>
  and then the loop over \<open>range(nx + 2 * ndum)\<close>.
\<close>

definition LoadResistor_draw_layout :: "int \<Rightarrow> int \<Rightarrow> bool \<Rightarrow> res_array" where
  "LoadResistor_draw_layout nx ndum show_pins =
     \<lparr>arr_nx = nx + 2 * ndum, arr_ny = 1,
      arr_pins = fold (export_column nx ndum show_pins) (py_range (nx + 2 * ndum)) []\<rparr>"

section \<open>CMLLoadSingle: the output tracks\<close>

text \<open>
  The framework's \<open>TrackID\<close> and \<open>WireArray\<close>, as far as the template reads them. A track
  index may be a half-integer, so it is a rational.
\<close>

record TrackID =
  tid_layer :: int
  base_index :: rat
  tid_width :: int

record WireArray =
  track_id :: TrackID
  wa_lower :: int
  wa_upper :: int

text \<open>
  What \<open>CMLLoadSingle._draw_layout_helper\<close> gets from the framework: the port table of the
  resistor instance \<open>XRES\<close> (port name to its pins), the pins \<open>sub_warrs\<close> of the substrate
  contact, its port name, \<open>connect_to_tracks\<close>, and the sizes of the two masters.
\<close>

record load_env =
  res_ports :: "string \<rightharpoonup> WireArray list"
  sub_warrs :: "WireArray list"
  port_name :: string
  connect_to_tracks :: "WireArray list \<Rightarrow> TrackID \<Rightarrow> int \<Rightarrow> WireArray"
  res_size :: "int \<times> int \<times> int"
  ny_shift :: int

text \<open>Looking a port up by name raises KeyError when the instance has no such port.\<close>

definition get_all_port_pins ::
  "(string \<rightharpoonup> WireArray list) \<Rightarrow> string \<Rightarrow> py_error + WireArray list" where
  "get_all_port_pins ports name = (case ports name of None \<Rightarrow> Inl KeyError | Some ws \<Rightarrow> Inr ws)"

text \<open>
  The fields of a \<open>CMLLoadSingle\<close> that its methods write, and the pins it adds or
  re-exports (name, wires, show flag).
\<close>

record load_single =
  ls_tot_width :: "int option"
  ls_output_tracks :: "rat list option"
  ls_pins :: "(string \<times> WireArray list \<times> bool) list"
  ls_size :: "(int \<times> int \<times> int) option"

text \<open>\<open>__init__\<close>, lines 160 to 164.\<close>

definition CMLLoadSingle_init :: load_single where
  "CMLLoadSingle_init =
     \<lparr>ls_tot_width = None, ls_output_tracks = None, ls_pins = [], ls_size = None\<rparr>"

text \<open>The property \<open>output_tracks\<close>, lines 166 to 168.\<close>

definition CMLLoadSingle_output_tracks :: "load_single \<Rightarrow> rat list option" where
  "CMLLoadSingle_output_tracks s = ls_output_tracks s"

text \<open>
  The loop of lines 240 to 245 over the remaining indices:
  \<^verbatim>\<open>
  top = res_inst.get_all_port_pins('top<%d>' % idx)[0]
  self._output_tracks.append(top.track_id.base_index)
  warr = self.connect_to_tracks(sub_warrs, top.track_id, track_lower=top.upper)
  self.add_pin(port_name, warr, show=show_pins)
  self.reexport(res_inst.get_port('bot<%d>' % idx), net_name='out<%d>' % idx, show=show_pins)
  \<close>
  Indexing an empty list raises IndexError; \<open>append\<close> on \<open>None\<close> raises AttributeError.
\<close>

fun output_loop :: "load_env \<Rightarrow> bool \<Rightarrow> int list \<Rightarrow> load_single \<Rightarrow> py_error + load_single" where
  "output_loop env show_pins [] s = Inr s"
| "output_loop env show_pins (idx # idxs) s =
     (case get_all_port_pins (res_ports env) (''top<'' @ fmt_d idx @ ''>'') of
        Inl e \<Rightarrow> Inl e
      | Inr [] \<Rightarrow> Inl IndexError
      | Inr (top_warr # others) \<Rightarrow>
          (case ls_output_tracks s of
             None \<Rightarrow> Inl AttributeError
           | Some tracks \<Rightarrow>
               let s1 = s\<lparr>ls_output_tracks := Some (tracks @ [base_index (track_id top_warr)])\<rparr>;
                   warr = connect_to_tracks env (sub_warrs env) (track_id top_warr) (wa_upper top_warr);
                   s2 = s1\<lparr>ls_pins := ls_pins s1 @ [(port_name env, [warr], show_pins)]\<rparr>
               in case get_all_port_pins (res_ports env) (''bot<'' @ fmt_d idx @ ''>'') of
                    Inl e \<Rightarrow> Inl e
                  | Inr bots \<Rightarrow>
                      output_loop env show_pins idxs
                        (s2\<lparr>ls_pins := ls_pins s2 @
                               [(''out<'' @ fmt_d idx @ ''>'', bots, show_pins)]\<rparr>)))"

text \<open>The body of the loop of lines 235 to 237 over the dummy pins.\<close>

definition connect_dummy :: "load_env \<Rightarrow> bool \<Rightarrow> WireArray \<Rightarrow> load_single \<Rightarrow> load_single" where
  "connect_dummy env show_pins dum_warr s =
     (let warr = connect_to_tracks env (sub_warrs env) (track_id dum_warr) (wa_upper dum_warr)
      in s\<lparr>ls_pins := ls_pins s @ [(port_name env, [warr], show_pins)]\<rparr>)"

text \<open>
  \<open>draw_layout\<close> and \<open>_draw_layout_helper\<close>, lines 207 to 249, on the state of the template;
  \<open>nx\<close> is \<open>res_params['nx']\<close>.
\<close>

definition CMLLoadSingle_draw_layout ::
  "load_env \<Rightarrow> int \<Rightarrow> bool \<Rightarrow> load_single \<Rightarrow> py_error + load_single" where
  "CMLLoadSingle_draw_layout env nx show_pins s =
     (case get_all_port_pins (res_ports env) ''dummy'' of
        Inl e \<Rightarrow> Inl e
      | Inr dums \<Rightarrow>
          let s1 = fold (connect_dummy env show_pins) dums s;
              s2 = s1\<lparr>ls_output_tracks := Some []\<rparr>
          in case output_loop env show_pins (py_range nx) s2 of
               Inl e \<Rightarrow> Inl e
             | Inr s3 \<Rightarrow>
                 (case res_size env of
                    (top_layer, nx_arr, ny_arr) \<Rightarrow>
                      Inr (s3\<lparr>ls_size := Some (top_layer, nx_arr, ny_arr + ny_shift env)\<rparr>)))"

text \<open>
  A resistor instance with two resistors and one dummy on each side, on tracks 3/2 and 7/2.
\<close>

definition ex_warr :: "rat \<Rightarrow> WireArray" where
  "ex_warr tr = \<lparr>track_id = \<lparr>tid_layer = 5, base_index = tr, tid_width = 1\<rparr>,
                 wa_lower = 0, wa_upper = 100\<rparr>"

definition ex_load_env :: load_env where
  "ex_load_env =
     \<lparr>res_ports = [''dummy'' \<mapsto> [ex_warr (1 / 2), ex_warr (9 / 2)],
                   ''bot<0>'' \<mapsto> [ex_warr (3 / 2)], ''top<0>'' \<mapsto> [ex_warr (3 / 2)],
                   ''bot<1>'' \<mapsto> [ex_warr (7 / 2)], ''top<1>'' \<mapsto> [ex_warr (7 / 2)]],
      sub_warrs = [],
      port_name = ''VDD'',
      connect_to_tracks = (\<lambda>warrs tid track_lower.
         \<lparr>track_id = tid, wa_lower = track_lower, wa_upper = track_lower + 10\<rparr>),
      res_size = (6, 4, 2),
      ny_shift = 1\<rparr>"

section \<open>CMLDriverPMOS\<close>










section \<open>The script layout_scripts/serdes.py\<close>

text \<open>Python values as they occur in the parameter dictionaries of the script.\<close>

datatype pyval =
  PyInt int | PyFloat rat | PyStr string | PyBool bool
  | PyList "pyval list" | PyDict "(string \<times> pyval) list"

type_synonym kwargs = "string \<rightharpoonup> pyval"

text \<open>
  A design module of the framework, as the script uses it: created for a library and a
  cell, it receives calls, which are recorded in order.
\<close>

datatype dsn_call = DesignSpecs kwargs | ImplementDesign string string bool

record design_module =
  dsn_lib :: string
  dsn_cell :: string
  dsn_calls :: "dsn_call list"

definition create_design_module :: "string \<Rightarrow> string \<Rightarrow> design_module" where
  "create_design_module lib_name cell_name =
     \<lparr>dsn_lib = lib_name, dsn_cell = cell_name, dsn_calls = []\<rparr>"

definition impl_lib :: string where
  "impl_lib = ''AAAFOO_serdes_rx2''"

text \<open>
  \<open>rxcore_sch\<close>, lines 207 to 213:
  \<^verbatim>\<open>
  dsn = prj.create_design_module(lib_name, cell_name)
  dsn.design_specs(fg_tot=2 * tot_fg, **sch_params)
  dsn.implement_design(impl_lib, top_cell_name=cell_name, erase=True)
  \<close>
  A call that gets the keyword \<open>fg_tot\<close> twice, once named and once from \<open>**sch_params\<close>,
  raises TypeError.
\<close>

definition rxcore_sch :: "kwargs \<Rightarrow> int \<Rightarrow> py_error + design_module" where
  "rxcore_sch sch_params tot_fg =
     (let lib_name = ''serdes_bm_templates'';
          cell_name = ''rxcore_ffe1_dfe4'';
          dsn = create_design_module lib_name cell_name
      in if sch_params ''fg_tot'' \<noteq> None then Inl TypeError
         else
           let dsn1 = dsn\<lparr>dsn_calls := dsn_calls dsn @
                        [DesignSpecs (sch_params(''fg_tot'' \<mapsto> PyInt (2 * tot_fg)))]\<rparr>
           in Inr (dsn1\<lparr>dsn_calls := dsn_calls dsn1 @
                        [ImplementDesign impl_lib cell_name True]\<rparr>))"

text \<open>The dictionary \<open>params\<close> of \<open>rxcore\<close>, lines 143 to 182.\<close>

definition fg_dict :: "(string \<times> int) list \<Rightarrow> pyval" where
  "fg_dict kvs = PyDict (map (\<lambda>(k, v). (k, PyInt v)) kvs)"

definition rxcore_params :: "(string \<times> pyval) list" where
  "rxcore_params =
     [(''lch'', PyFloat (16 / 1000000000)),
      (''w_dict'', fg_dict [(''load'', 3), (''casc'', 4), (''in'', 3), (''sw'', 3), (''tail'', 3)]),
      (''th_dict'', PyDict [(''load'', PyStr ''ulvt''), (''casc'', PyStr ''ulvt''),
                            (''in'', PyStr ''ulvt''), (''sw'', PyStr ''ulvt''),
                            (''tail'', PyStr ''svt'')]),
      (''integ_params'', fg_dict [(''load'', 6), (''in'', 4), (''sw'', 4), (''tail'', 4)]),
      (''nac_off'', PyInt 4),
      (''alat_params_list'', PyList
         [fg_dict [(''load'', 4), (''casc'', 8), (''in'', 6), (''sw'', 4), (''tail'', 8)],
          fg_dict [(''load'', 4), (''casc'', 8), (''in'', 6), (''sw'', 4), (''tail'', 8)]]),
      (''intsum_params'', PyDict
         [(''fg_load'', PyInt 12),
          (''load_fg_list'', PyList (map PyInt [4, 4, 4, 0, 0, 0])),
          (''gm_fg_list'', PyList
             [fg_dict [(''in'', 2), (''sw'', 2), (''tail'', 4)],
              fg_dict [(''casc'', 4), (''in'', 2), (''sw'', 2), (''tail'', 4)],
              fg_dict [(''in'', 4), (''tail'', 2)],
              fg_dict [(''in'', 4), (''sw'', 4), (''tail'', 2)],
              fg_dict [(''in'', 4), (''sw'', 4), (''tail'', 2)],
              fg_dict [(''in'', 4), (''sw'', 4), (''tail'', 2)]]),
          (''flip_sd_list'', PyList (map PyBool [False, True, True, True, True, True])),
          (''sgn_list'', PyList (map PyInt [1, - 1, - 1, - 1, - 1, - 1]))]),
      (''summer_params'', PyDict
         [(''fg_load'', PyInt 8),
          (''load_fg_list'', PyList (map PyInt [8, 0])),
          (''gm_fg_list'', PyList
             [fg_dict [(''casc'', 10), (''in'', 8), (''sw'', 4), (''tail'', 12)],
              fg_dict [(''casc'', 8), (''in'', 8), (''sw'', 4), (''tail'', 2)]]),
          (''flip_sd_list'', PyList (map PyBool [False, False])),
          (''sgn_list'', PyList (map PyInt [1, - 1]))]),
      (''dlat_params_list'', PyList
         [fg_dict [(''load'', 4), (''casc'', 10), (''in'', 10), (''sw'', 6), (''tail'', 2)],
          fg_dict [(''load'', 4), (''casc'', 10), (''in'', 10), (''sw'', 6), (''tail'', 2)],
          fg_dict [(''load'', 4), (''casc'', 10), (''in'', 10), (''sw'', 6), (''tail'', 2)]])]"

text \<open>The dictionary \<open>layout_params\<close> of \<open>rxcore\<close> before the update, lines 184 to 196.\<close>

definition rxcore_layout_defaults :: "(string \<times> pyval) list" where
  "rxcore_layout_defaults =
     [(''ptap_w'', PyInt 6), (''ntap_w'', PyInt 6), (''hm_width'', PyInt 1),
      (''hm_cur_width'', PyInt 2), (''diff_space'', PyInt 1),
      (''sig_widths'', PyList (map PyInt [1, 2])),
      (''sig_spaces'', PyList (map PyInt [2, 2])),
      (''clk_widths'', PyList (map PyInt [2, 3, 4])),
      (''clk_spaces'', PyList (map PyInt [2, 3, 6])),
      (''sig_clk_spaces'', PyList (map PyInt [2, 3])),
      (''min_fg_sep'', PyInt 4)]"

text \<open>
  \<open>rxcore\<close>, lines 140 to 204. \<open>num_fingers\<close> stands for the framework: the number of
  fingers of the \<open>RXCore\<close> template that \<open>new_template\<close> builds from \<open>layout_params\<close>. The
  function returns \<open>params\<close> and that number.
\<close>

definition rxcore :: "(kwargs \<Rightarrow> int) \<Rightarrow> kwargs \<times> int" where
  "rxcore num_fingers =
     (let params = map_of rxcore_params;
          layout_params = map_of rxcore_layout_defaults ++ params
      in (params, num_fingers layout_params))"

section \<open>Properties of the finger-count search\<close>

lemma fg_loop_sound:
  "fg_loop gtw g np fg cw = Some r \<Longrightarrow>
   cw = gtw fg g \<longrightarrow>
         fst r \<le> fg \<and> snd r = gtw (fst r) g \<and> snd r \<le> np \<and>
         (\<forall>k. fst r < k \<and> k \<le> fg \<longrightarrow> np < gtw k g)"
proof (induction gtw g np fg cw r rule: fg_loop.raw_induct[rotated, consumes 1])
  case (1 f gtw g np fg cw r)
  show ?case
  proof (cases "np < cw")
    case False
    with 1(2) show ?thesis by auto
  next
    case True
    with 1(2) have rec: "f gtw g np (fg - 1) (gtw (fg - 1) g) = Some r" by simp
    from 1(1)[OF rec] have ih: "fst r \<le> fg - 1" "snd r = gtw (fst r) g" "snd r \<le> np"
      "\<forall>k. fst r < k \<and> k \<le> fg - 1 \<longrightarrow> np < gtw k g" by simp_all
    show ?thesis
    proof (intro impI conjI allI)
      assume cw: "cw = gtw fg g"
      show "fst r \<le> fg" using ih(1) by simp
      show "snd r = gtw (fst r) g" by (rule ih(2))
      show "snd r \<le> np" by (rule ih(3))
      fix k assume k: "fst r < k \<and> k \<le> fg"
      show "np < gtw k g"
      proof (cases "k = fg")
        case True with cw \<open>np < cw\<close> show ?thesis by simp
      next
        case False with k ih(4) show ?thesis by simp
      qed
    qed
  qed
qed

lemma fg_loop_terminates:
  assumes "m \<le> fg" and "gtw m g \<le> np"
  shows "\<exists>fg'. m \<le> fg' \<and> fg' \<le> fg \<and> fg_loop gtw g np fg (gtw fg g) = Some (fg', gtw fg' g)"
  using assms
proof (induction "nat (fg - m)" arbitrary: fg)
  case 0
  then have "fg = m" by simp
  with 0(3) show ?case by (simp add: fg_loop.simps)
next
  case (Suc d)
  show ?case
  proof (cases "np < gtw fg g")
    case False
    then have "fg_loop gtw g np fg (gtw fg g) = Some (fg, gtw fg g)"
      by (simp add: fg_loop.simps)
    with Suc.prems show ?thesis by blast
  next
    case True
    from Suc.hyps(2) have "d = nat (fg - 1 - m)" "m \<le> fg - 1" by simp_all
    from Suc.hyps(1)[OF this Suc.prems(2)] obtain fg' where
      fg': "m \<le> fg'" "fg' \<le> fg - 1"
           "fg_loop gtw g np (fg - 1) (gtw (fg - 1) g) = Some (fg', gtw fg' g)"
      by blast
    from True fg'(3) have "fg_loop gtw g np fg (gtw fg g) = Some (fg', gtw fg' g)"
      by (subst fg_loop.simps) simp
    with fg'(1,2) show ?thesis by auto
  qed
qed


lemma fg_loop_None:
  "fg_loop gtw g np np (gtw np g) = None \<longleftrightarrow> (\<forall>k. k \<le> np \<longrightarrow> np < gtw k g)"
proof
  assume n: "fg_loop gtw g np np (gtw np g) = None"
  show "\<forall>k. k \<le> np \<longrightarrow> np < gtw k g"
  proof (intro allI impI)
    fix k assume "k \<le> np"
    show "np < gtw k g"
    proof (rule ccontr)
      assume "\<not> np < gtw k g"
      then have "gtw k g \<le> np" by simp
      from fg_loop_terminates[where gtw = gtw and g = g, OF \<open>k \<le> np\<close> this] n show False by auto
    qed
  qed
next
  assume a: "\<forall>k. k \<le> np \<longrightarrow> np < gtw k g"
  show "fg_loop gtw g np np (gtw np g) = None"
  proof (cases "fg_loop gtw g np np (gtw np g)")
    case None then show ?thesis .
  next
    case (Some r)
    from fg_loop_sound[OF Some] have "fst r \<le> np" "gtw (fst r) g \<le> np" by simp_all
    with a show ?thesis by auto
  qed
qed










text \<open>
  Claim C3. Started as in the source, from \<open>fg_tot = num_pitch\<close> and
  \<open>cur_width = get_total_width(num_pitch)\<close>, the while loop terminates whenever some
  \<open>m \<le> num_pitch\<close> has \<open>get_total_width(m) \<le> num_pitch\<close>, and it exits at a finger count
  between \<open>m\<close> and \<open>num_pitch\<close>; when there is no such \<open>m\<close> the loop never terminates.
  Each iteration lowers \<open>fg_tot\<close> by one, as the recursive call of \<open>fg_loop\<close> shows.
\<close>

theorem fg_loop_terminates_iff:
  "(m \<le> num_pitch \<and> gtw m g \<le> num_pitch \<longrightarrow>
      (\<exists>fg_tot. m \<le> fg_tot \<and> fg_tot \<le> num_pitch \<and>
         fg_loop gtw g num_pitch num_pitch (gtw num_pitch g) = Some (fg_tot, gtw fg_tot g))) \<and>
   (\<not> (\<exists>m. m \<le> num_pitch \<and> gtw m g \<le> num_pitch) \<longrightarrow>
      fg_loop gtw g num_pitch num_pitch (gtw num_pitch g) = None)"
proof (intro conjI impI)
  assume "m \<le> num_pitch \<and> gtw m g \<le> num_pitch"
  then have "m \<le> num_pitch" "gtw m g \<le> num_pitch" by simp_all
  from fg_loop_terminates[where gtw = gtw and g = g, OF this]
  show "\<exists>fg_tot. m \<le> fg_tot \<and> fg_tot \<le> num_pitch \<and>
         fg_loop gtw g num_pitch num_pitch (gtw num_pitch g) = Some (fg_tot, gtw fg_tot g)"
    by blast
next
  assume "\<not> (\<exists>m. m \<le> num_pitch \<and> gtw m g \<le> num_pitch)"
  then show "fg_loop gtw g num_pitch num_pitch (gtw num_pitch g) = None"
    unfolding fg_loop_None by (metis not_less)
qed

text \<open>The theorem on a terminating search and on one that never ends.\<close>

theorem fg_loop_terminates_iff_witness:
  "(7::int) \<le> 10 \<and> get_total_width ex_info 7 0 \<le> 10 \<and>
   fg_loop (get_total_width ex_info) 0 10 10 (get_total_width ex_info 10 0) = Some (8, 10) \<and>
   fg_loop (get_total_width stuck_info) 0 4 4 (get_total_width stuck_info 4 0) = None"
proof -
  have a: "(7::int) \<le> 10 \<and> get_total_width ex_info 7 0 \<le> 10" by (simp add: ex_info_def)
  have b: "\<not> (\<exists>m. m \<le> (4::int) \<and> get_total_width stuck_info m 0 \<le> 4)" by (simp add: stuck_info_def)
  from fg_loop_terminates_iff [of 7 10 "get_total_width ex_info" 0] a
  obtain fg_tot where f: "7 \<le> fg_tot" "fg_tot \<le> 10"
    "fg_loop (get_total_width ex_info) 0 10 10 (get_total_width ex_info 10 0)
       = Some (fg_tot, get_total_width ex_info fg_tot 0)" by blast
  have e: "fg_loop (get_total_width ex_info) 0 10 10 (get_total_width ex_info 10 0) = Some (8, 10)"
    by (simp add: ex_info_def fg_loop.simps)
  from fg_loop_terminates_iff [of 0 4 "get_total_width stuck_info" 0] b
  have "fg_loop (get_total_width stuck_info) 0 4 4 (get_total_width stuck_info 4 0) = None" by blast
  with a e show ?thesis by simp
qed

section \<open>Properties of the EM spec scaling and of the track setup\<close>











section \<open>Properties of the decimal formatting\<close>

lemma digits_nonempty: "digits n \<noteq> []"
  by (subst digits.simps) simp

lemma digits_last: "last (digits n) = digit_char (n mod 10)"
  by (subst digits.simps) simp

lemma digits_butlast: "butlast (digits n) = (if n < 10 then [] else digits (n div 10))"
  by (subst digits.simps) simp

lemma digit_char_inj:
  assumes "a < 10" and "b < 10" and "digit_char a = digit_char b"
  shows "a = b"
proof -
  have d: "distinct ''0123456789''" by simp
  have l: "length ''0123456789'' = 10" by simp
  from assms l have "a < length ''0123456789''" "b < length ''0123456789''" by simp_all
  with d assms(3) show ?thesis
    unfolding digit_char_def by (simp only: nth_eq_iff_index_eq)
qed

lemma digits_inj: "digits n = digits m \<Longrightarrow> n = m"
proof (induction n arbitrary: m rule: less_induct)
  case (less n)
  from less.prems have "last (digits n) = last (digits m)" by simp
  then have "digit_char (n mod 10) = digit_char (m mod 10)" by (simp only: digits_last)
  then have md: "n mod 10 = m mod 10" by (intro digit_char_inj) simp_all
  from less.prems have bl: "butlast (digits n) = butlast (digits m)" by simp
  show ?case
  proof (cases "n < 10")
    case True
    with bl have "m < 10"
      by (auto simp: digits_butlast digits_nonempty digits_nonempty[THEN not_sym] split: if_splits)
    with True md show ?thesis by simp
  next
    case False
    with bl have m10: "\<not> m < 10"
      by (auto simp: digits_butlast digits_nonempty digits_nonempty[THEN not_sym] split: if_splits)
    with False bl have "digits (n div 10) = digits (m div 10)" by (simp add: digits_butlast)
    moreover from False have "n div 10 < n" by simp
    ultimately have "n div 10 = m div 10" by (rule less.IH[rotated])
    with md show ?thesis by (metis div_mult_mod_eq)
  qed
qed

lemma fmt_d_inj: "0 \<le> i \<Longrightarrow> 0 \<le> j \<Longrightarrow> fmt_d i = fmt_d j \<Longrightarrow> i = j"
  by (auto simp: fmt_d_def dest: digits_inj)

section \<open>Properties of the LoadResistor pins\<close>

lemma set_py_range: "set (py_range n) = {i. 0 \<le> i \<and> i < n}"
proof (intro set_eqI iffI)
  fix i assume "i \<in> set (py_range n)"
  then obtain k where "k < nat n" "i = int k" by (auto simp: py_range_def)
  then show "i \<in> {i. 0 \<le> i \<and> i < n}" by simp
next
  fix i assume "i \<in> {i. 0 \<le> i \<and> i < n}"
  then have "nat i < nat n" "i = int (nat i)" by simp_all
  then show "i \<in> set (py_range n)" unfolding py_range_def by (metis atLeast0LessThan image_eqI lessThan_iff set_map set_upt)
qed

lemma distinct_py_range: "distinct (py_range n)"
  by (simp add: py_range_def distinct_map inj_on_def)

lemma py_range_add:
  assumes "0 \<le> a" and "0 \<le> b"
  shows "py_range (a + b) = py_range a @ map (\<lambda>k. k + a) (py_range b)"
proof -
  from assms have n: "nat (a + b) = nat a + nat b" by (rule nat_add_distrib)
  have "[0..<nat a + nat b] = [0..<nat a] @ [nat a..<nat a + nat b]"
    by (rule upt_add_eq_append) simp
  moreover have "map (\<lambda>k. k + nat a) [0..<nat b] = [nat a..<nat b + nat a]"
    by (rule map_add_upt)
  moreover have "nat b + nat a = nat a + nat b" by (rule add.commute)
  ultimately have u: "[0..<nat (a + b)] = [0..<nat a] @ map (\<lambda>k. k + nat a) [0..<nat b]"
    using n by (simp only:)
  have m: "map int (map (\<lambda>k. k + nat a) [0..<nat b]) = map (\<lambda>k. k + a) (map int [0..<nat b])"
    using assms(1) by (simp add: comp_def)
  have "py_range (a + b) = map int ([0..<nat a] @ map (\<lambda>k. k + nat a) [0..<nat b])"
    unfolding py_range_def by (simp only: u)
  also have "\<dots> = map int [0..<nat a] @ map int (map (\<lambda>k. k + nat a) [0..<nat b])"
    by (rule map_append)
  also have "\<dots> = py_range a @ map (\<lambda>k. k + a) (py_range b)"
    unfolding py_range_def by (simp only: m)
  finally show ?thesis .
qed

lemma export_column_append:
  "export_column nx ndum sp idx pins = pins @ export_column nx ndum sp idx []"
  by (simp add: export_column_def Let_def)

lemma fold_export_column:
  "fold (export_column nx ndum sp) idxs pins =
     pins @ concat (map (\<lambda>idx. export_column nx ndum sp idx []) idxs)"
proof (induction idxs arbitrary: pins)
  case Nil
  then show ?case by simp
next
  case (Cons idx idxs)
  have "fold (export_column nx ndum sp) (idx # idxs) pins =
          fold (export_column nx ndum sp) idxs (export_column nx ndum sp idx pins)" by simp
  also have "\<dots> = export_column nx ndum sp idx pins
                 @ concat (map (\<lambda>idx. export_column nx ndum sp idx []) idxs)"
    by (rule Cons.IH)
  also have "export_column nx ndum sp idx pins = pins @ export_column nx ndum sp idx []"
    by (rule export_column_append)
  finally show ?case by simp
qed

lemma arr_pins_concat:
  "arr_pins (LoadResistor_draw_layout nx ndum sp) =
     concat (map (\<lambda>idx. export_column nx ndum sp idx []) (py_range (nx + 2 * ndum)))"
  by (simp add: LoadResistor_draw_layout_def fold_export_column)

lemma arr_pins_member:
  "p \<in> set (arr_pins (LoadResistor_draw_layout nx ndum sp)) \<longleftrightarrow>
     (\<exists>idx. 0 \<le> idx \<and> idx < nx + 2 * ndum \<and> p \<in> set (export_column nx ndum sp idx []))"
  by (auto simp: arr_pins_concat set_py_range)

lemma dummy_pin_member:
  assumes "0 \<le> idx" and "idx < nx + 2 * ndum"
  shows "\<lparr>pin_name = ''dummy'',
           pin_wire = ConnectWires [ExportVm (BotPort 0 idx), ExportVm (TopPort 0 idx)],
           pin_show = sp\<rparr> \<in> set (arr_pins (LoadResistor_draw_layout nx ndum sp))
         \<longleftrightarrow> idx < ndum \<or> nx + ndum \<le> idx"
  using assms unfolding arr_pins_member
  by (auto simp: export_column_def Let_def split: if_splits)

lemma bot_pin_member:
  assumes "0 \<le> idx" and "idx < nx + 2 * ndum"
  shows "\<lparr>pin_name = ''bot<'' @ fmt_d (idx - ndum) @ ''>'',
           pin_wire = ExportVm (BotPort 0 idx),
           pin_show = sp\<rparr> \<in> set (arr_pins (LoadResistor_draw_layout nx ndum sp))
         \<longleftrightarrow> \<not> (idx < ndum \<or> nx + ndum \<le> idx)"
  using assms unfolding arr_pins_member
  by (auto simp: export_column_def Let_def split: if_splits)

lemma top_pin_member:
  assumes "0 \<le> idx" and "idx < nx + 2 * ndum"
  shows "\<lparr>pin_name = ''top<'' @ fmt_d (idx - ndum) @ ''>'',
           pin_wire = ExportVm (TopPort 0 idx),
           pin_show = sp\<rparr> \<in> set (arr_pins (LoadResistor_draw_layout nx ndum sp))
         \<longleftrightarrow> \<not> (idx < ndum \<or> nx + ndum \<le> idx)"
  using assms unfolding arr_pins_member
  by (auto simp: export_column_def Let_def split: if_splits)

lemma exported_names_column:
  "map pin_name (filter (\<lambda>p. pin_name p \<noteq> ''dummy'') (export_column nx ndum sp idx [])) =
     (if idx < ndum \<or> nx + ndum \<le> idx then []
      else [''bot<'' @ fmt_d (idx - ndum) @ ''>'', ''top<'' @ fmt_d (idx - ndum) @ ''>''])"
  by (simp add: export_column_def Let_def)

lemma exported_names_concat:
  "map pin_name (filter (\<lambda>p. pin_name p \<noteq> ''dummy'')
       (concat (map (\<lambda>idx. export_column nx ndum sp idx []) idxs))) =
   concat (map (\<lambda>idx. if idx < ndum \<or> nx + ndum \<le> idx then []
      else [''bot<'' @ fmt_d (idx - ndum) @ ''>'', ''top<'' @ fmt_d (idx - ndum) @ ''>'']) idxs)"
proof (induction idxs)
  case Nil
  then show ?case by simp
next
  case (Cons idx idxs)
  have "map pin_name (filter (\<lambda>p. pin_name p \<noteq> ''dummy'')
          (concat (map (\<lambda>idx. export_column nx ndum sp idx []) (idx # idxs)))) =
        map pin_name (filter (\<lambda>p. pin_name p \<noteq> ''dummy'') (export_column nx ndum sp idx [])) @
        map pin_name (filter (\<lambda>p. pin_name p \<noteq> ''dummy'')
          (concat (map (\<lambda>idx. export_column nx ndum sp idx []) idxs)))"
    by simp
  then show ?case by (simp only: Cons.IH exported_names_column) simp
qed

lemma concat_all_empty: "(\<And>x. x \<in> set xs \<Longrightarrow> g x = []) \<Longrightarrow> concat (map g xs) = []"
  by (induction xs) simp_all

lemma exported_names:
  assumes "0 \<le> nx" and "0 \<le> ndum"
  shows "map pin_name (filter (\<lambda>p. pin_name p \<noteq> ''dummy'')
           (arr_pins (LoadResistor_draw_layout nx ndum sp))) =
         concat (map (\<lambda>k. [''bot<'' @ fmt_d k @ ''>'', ''top<'' @ fmt_d k @ ''>'']) (py_range nx))"
proof -
  let ?g = "\<lambda>idx. if idx < ndum \<or> nx + ndum \<le> idx then []
      else [''bot<'' @ fmt_d (idx - ndum) @ ''>'', ''top<'' @ fmt_d (idx - ndum) @ ''>'']"
  have split: "py_range (nx + 2 * ndum) =
      py_range ndum @ map (\<lambda>k. k + ndum) (py_range nx) @ map (\<lambda>k. k + (ndum + nx)) (py_range ndum)"
  proof -
    have "nx + 2 * ndum = (ndum + nx) + ndum" by simp
    then have "py_range (nx + 2 * ndum) = py_range ((ndum + nx) + ndum)" by (simp only:)
    also from assms have "\<dots> = py_range (ndum + nx) @ map (\<lambda>k. k + (ndum + nx)) (py_range ndum)"
      by (intro py_range_add) simp_all
    also from assms have "py_range (ndum + nx) = py_range ndum @ map (\<lambda>k. k + ndum) (py_range nx)"
      by (intro py_range_add)
    finally show ?thesis by simp
  qed
  have first: "concat (map ?g (py_range ndum)) = []"
    by (rule concat_all_empty) (simp add: set_py_range)
  have third: "concat (map ?g (map (\<lambda>k. k + (ndum + nx)) (py_range ndum))) = []"
    by (rule concat_all_empty) (auto simp: set_py_range)
  have mid: "map ?g (map (\<lambda>k. k + ndum) (py_range nx)) =
      map (\<lambda>k. [''bot<'' @ fmt_d k @ ''>'', ''top<'' @ fmt_d k @ ''>'']) (py_range nx)"
    by (simp add: set_py_range)
  have "map pin_name (filter (\<lambda>p. pin_name p \<noteq> ''dummy'')
           (arr_pins (LoadResistor_draw_layout nx ndum sp))) =
        concat (map ?g (py_range (nx + 2 * ndum)))"
    by (simp only: arr_pins_concat exported_names_concat)
  also have "\<dots> = concat (map ?g (py_range ndum)) @
       concat (map ?g (map (\<lambda>k. k + ndum) (py_range nx))) @
       concat (map ?g (map (\<lambda>k. k + (ndum + nx)) (py_range ndum)))"
    by (simp only: split map_append concat_append)
  also have "\<dots> = concat (map (\<lambda>k. [''bot<'' @ fmt_d k @ ''>'', ''top<'' @ fmt_d k @ ''>''])
                        (py_range nx))"
    by (simp only: first third mid) simp
  finally show ?thesis .
qed

lemma names_distinct:
  "distinct ks \<Longrightarrow> (\<And>k. k \<in> set ks \<Longrightarrow> 0 \<le> k) \<Longrightarrow>
     distinct (concat (map (\<lambda>k. [''bot<'' @ fmt_d k @ ''>'', ''top<'' @ fmt_d k @ ''>'']) ks))"
proof (induction ks)
  case Nil
  then show ?case by simp
next
  case (Cons k ks)
  from Cons.prems have dk: "k \<notin> set ks" and dks: "distinct ks" and k0: "0 \<le> k"
    and ks0: "\<And>j. j \<in> set ks \<Longrightarrow> 0 \<le> j" by simp_all
  have ih: "distinct (concat (map (\<lambda>k. [''bot<'' @ fmt_d k @ ''>'', ''top<'' @ fmt_d k @ ''>'']) ks))"
    using dks ks0 by (rule Cons.IH)
  have fresh: "fmt_d k \<noteq> fmt_d j" if "j \<in> set ks" for j
  proof
    assume "fmt_d k = fmt_d j"
    with k0 ks0[OF that] have "k = j" by (intro fmt_d_inj)
    with that dk show False by simp
  qed
  from ih fresh show ?case by auto
qed

text \<open>
  Claim C5. For \<open>nx \<ge> 1\<close> and \<open>ndum \<ge> 0\<close>, \<open>LoadResistor.draw_layout\<close> draws an array of
  \<open>nx + 2 * ndum\<close> columns and one row. For every column \<open>idx\<close> of the array, the pin
  \<open>dummy\<close> made of the two exported ports of that column is added exactly when
  \<open>idx < ndum\<close> or \<open>idx \<ge> nx + ndum\<close>, and the pins \<open>bot<idx - ndum>\<close> and
  \<open>top<idx - ndum>\<close> on its bottom and top port are added exactly when it is not such a
  column. The names of the pins other than \<open>dummy\<close> are, in order, \<open>bot<0>\<close>, \<open>top<0>\<close>, ...,
  \<open>bot<nx - 1>\<close>, \<open>top<nx - 1>\<close>, and no name occurs twice.
\<close>

theorem LoadResistor_draw_layout_pins:
  assumes "1 \<le> nx" and "0 \<le> ndum"
  shows "arr_nx (LoadResistor_draw_layout nx ndum show_pins) = nx + 2 * ndum \<and>
         arr_ny (LoadResistor_draw_layout nx ndum show_pins) = 1 \<and>
         (\<forall>idx. 0 \<le> idx \<and> idx < nx + 2 * ndum \<longrightarrow>
            ((\<lparr>pin_name = ''dummy'',
               pin_wire = ConnectWires [ExportVm (BotPort 0 idx), ExportVm (TopPort 0 idx)],
               pin_show = show_pins\<rparr>
                \<in> set (arr_pins (LoadResistor_draw_layout nx ndum show_pins)))
              \<longleftrightarrow> (idx < ndum \<or> nx + ndum \<le> idx)) \<and>
            ((\<lparr>pin_name = ''bot<'' @ fmt_d (idx - ndum) @ ''>'',
               pin_wire = ExportVm (BotPort 0 idx), pin_show = show_pins\<rparr>
                \<in> set (arr_pins (LoadResistor_draw_layout nx ndum show_pins)))
              \<longleftrightarrow> \<not> (idx < ndum \<or> nx + ndum \<le> idx)) \<and>
            ((\<lparr>pin_name = ''top<'' @ fmt_d (idx - ndum) @ ''>'',
               pin_wire = ExportVm (TopPort 0 idx), pin_show = show_pins\<rparr>
                \<in> set (arr_pins (LoadResistor_draw_layout nx ndum show_pins)))
              \<longleftrightarrow> \<not> (idx < ndum \<or> nx + ndum \<le> idx))) \<and>
         map pin_name (filter (\<lambda>p. pin_name p \<noteq> ''dummy'')
             (arr_pins (LoadResistor_draw_layout nx ndum show_pins))) =
           concat (map (\<lambda>k. [''bot<'' @ fmt_d k @ ''>'', ''top<'' @ fmt_d k @ ''>''])
                     (py_range nx)) \<and>
         distinct (map pin_name (filter (\<lambda>p. pin_name p \<noteq> ''dummy'')
             (arr_pins (LoadResistor_draw_layout nx ndum show_pins))))"
proof -
  from assms have nx0: "0 \<le> nx" by simp
  have size: "arr_nx (LoadResistor_draw_layout nx ndum show_pins) = nx + 2 * ndum"
    "arr_ny (LoadResistor_draw_layout nx ndum show_pins) = 1"
    by (simp_all add: LoadResistor_draw_layout_def)
  have names: "map pin_name (filter (\<lambda>p. pin_name p \<noteq> ''dummy'')
             (arr_pins (LoadResistor_draw_layout nx ndum show_pins))) =
           concat (map (\<lambda>k. [''bot<'' @ fmt_d k @ ''>'', ''top<'' @ fmt_d k @ ''>''])
                     (py_range nx))"
    using nx0 assms(2) by (rule exported_names)
  have "distinct (concat (map (\<lambda>k. [''bot<'' @ fmt_d k @ ''>'', ''top<'' @ fmt_d k @ ''>''])
                     (py_range nx)))"
    by (rule names_distinct) (simp_all add: distinct_py_range set_py_range)
  with names have dist: "distinct (map pin_name (filter (\<lambda>p. pin_name p \<noteq> ''dummy'')
             (arr_pins (LoadResistor_draw_layout nx ndum show_pins))))"
    by (simp only:)
  show ?thesis
  proof (intro conjI allI impI)
    show "arr_nx (LoadResistor_draw_layout nx ndum show_pins) = nx + 2 * ndum" by (rule size(1))
    show "arr_ny (LoadResistor_draw_layout nx ndum show_pins) = 1" by (rule size(2))
  next
    fix idx assume "0 \<le> idx \<and> idx < nx + 2 * ndum"
    then have i: "0 \<le> idx" "idx < nx + 2 * ndum" by simp_all
    from i show "(\<lparr>pin_name = ''dummy'',
               pin_wire = ConnectWires [ExportVm (BotPort 0 idx), ExportVm (TopPort 0 idx)],
               pin_show = show_pins\<rparr>
                \<in> set (arr_pins (LoadResistor_draw_layout nx ndum show_pins)))
              \<longleftrightarrow> (idx < ndum \<or> nx + ndum \<le> idx)"
      by (rule dummy_pin_member)
    from i show "(\<lparr>pin_name = ''bot<'' @ fmt_d (idx - ndum) @ ''>'',
               pin_wire = ExportVm (BotPort 0 idx), pin_show = show_pins\<rparr>
                \<in> set (arr_pins (LoadResistor_draw_layout nx ndum show_pins)))
              \<longleftrightarrow> \<not> (idx < ndum \<or> nx + ndum \<le> idx)"
      by (rule bot_pin_member)
    from i show "(\<lparr>pin_name = ''top<'' @ fmt_d (idx - ndum) @ ''>'',
               pin_wire = ExportVm (TopPort 0 idx), pin_show = show_pins\<rparr>
                \<in> set (arr_pins (LoadResistor_draw_layout nx ndum show_pins)))
              \<longleftrightarrow> \<not> (idx < ndum \<or> nx + ndum \<le> idx)"
      by (rule top_pin_member)
  next
    show "map pin_name (filter (\<lambda>p. pin_name p \<noteq> ''dummy'')
             (arr_pins (LoadResistor_draw_layout nx ndum show_pins))) =
           concat (map (\<lambda>k. [''bot<'' @ fmt_d k @ ''>'', ''top<'' @ fmt_d k @ ''>''])
                     (py_range nx))" by (rule names)
    show "distinct (map pin_name (filter (\<lambda>p. pin_name p \<noteq> ''dummy'')
             (arr_pins (LoadResistor_draw_layout nx ndum show_pins))))" by (rule dist)
  qed
qed

text \<open>The theorem for three resistors and two dummies on each side.\<close>

theorem LoadResistor_draw_layout_pins_witness:
  "(1::int) \<le> 3 \<and> (0::int) \<le> 2 \<and>
   arr_nx (LoadResistor_draw_layout 3 2 True) = 7 \<and>
   \<lparr>pin_name = ''dummy'',
     pin_wire = ConnectWires [ExportVm (BotPort 0 1), ExportVm (TopPort 0 1)],
     pin_show = True\<rparr> \<in> set (arr_pins (LoadResistor_draw_layout 3 2 True)) \<and>
   \<lparr>pin_name = ''top<2>'', pin_wire = ExportVm (TopPort 0 4), pin_show = True\<rparr>
     \<in> set (arr_pins (LoadResistor_draw_layout 3 2 True)) \<and>
   map pin_name (filter (\<lambda>p. pin_name p \<noteq> ''dummy'')
       (arr_pins (LoadResistor_draw_layout 3 2 True))) =
     [''bot<0>'', ''top<0>'', ''bot<1>'', ''top<1>'', ''bot<2>'', ''top<2>'']"
proof -
  have h: "(1::int) \<le> 3" "(0::int) \<le> 2" by simp_all
  note t = LoadResistor_draw_layout_pins [OF h, of True]
  note c = t [THEN conjunct2, THEN conjunct2, THEN conjunct1, rule_format]
  have f: "fmt_d 0 = ''0''" "fmt_d 1 = ''1''" "fmt_d 2 = ''2''"
    by (simp_all add: fmt_d_def digits.simps digit_char_def)
  have r: "py_range 3 = [0, 1, 2]" by (simp add: py_range_def upt_rec)
  from t have "arr_nx (LoadResistor_draw_layout 3 2 True) = 7" by simp
  moreover from c [of 1] have "\<lparr>pin_name = ''dummy'',
     pin_wire = ConnectWires [ExportVm (BotPort 0 1), ExportVm (TopPort 0 1)],
     pin_show = True\<rparr> \<in> set (arr_pins (LoadResistor_draw_layout 3 2 True))"
    by simp
  moreover from c [of 4] have "\<lparr>pin_name = ''top<'' @ fmt_d (4 - 2) @ ''>'',
      pin_wire = ExportVm (TopPort 0 4), pin_show = True\<rparr>
     \<in> set (arr_pins (LoadResistor_draw_layout 3 2 True))"
    by simp
  moreover from t have "map pin_name (filter (\<lambda>p. pin_name p \<noteq> ''dummy'')
       (arr_pins (LoadResistor_draw_layout 3 2 True))) =
       concat (map (\<lambda>k. [''bot<'' @ fmt_d k @ ''>'', ''top<'' @ fmt_d k @ ''>'']) (py_range 3))"
    by simp
  ultimately show ?thesis using h by (simp add: f r)
qed

section \<open>Properties of CMLLoadSingle and CMLDriverPMOS\<close>

lemma output_loop_step:
  assumes "output_loop env sp (idx # idxs) s = Inr s'" and "ls_output_tracks s = Some ts"
  shows "\<exists>w ws s2. res_ports env (''top<'' @ fmt_d idx @ ''>'') = Some (w # ws) \<and>
           ls_output_tracks s2 = Some (ts @ [base_index (track_id w)]) \<and>
           output_loop env sp idxs s2 = Inr s'"
proof (cases "res_ports env (''top<'' @ fmt_d idx @ ''>'')")
  case None
  with assms(1) show ?thesis by (simp add: get_all_port_pins_def)
next
  case (Some tops)
  show ?thesis
  proof (cases tops)
    case Nil
    with Some assms(1) show ?thesis by (simp add: get_all_port_pins_def)
  next
    case (Cons w ws)
    show ?thesis
    proof (cases "res_ports env (''bot<'' @ fmt_d idx @ ''>'')")
      case None
      with Some Cons assms show ?thesis by (simp add: get_all_port_pins_def Let_def)
    next
      case bots: (Some bots)
      let ?s2 = "s\<lparr>ls_output_tracks := Some (ts @ [base_index (track_id w)]),
                  ls_pins := ls_pins s @
                    [(port_name env,
                      [connect_to_tracks env (sub_warrs env) (track_id w) (wa_upper w)], sp),
                     (''out<'' @ fmt_d idx @ ''>'', bots, sp)]\<rparr>"
      from Some Cons bots assms have "output_loop env sp idxs ?s2 = Inr s'"
        by (simp add: get_all_port_pins_def Let_def)
      moreover have "ls_output_tracks ?s2 = Some (ts @ [base_index (track_id w)])" by simp
      ultimately show ?thesis using Some Cons by blast
    qed
  qed
qed

lemma output_loop_tracks:
  "output_loop env sp idxs s = Inr s' \<Longrightarrow> ls_output_tracks s = Some ts \<Longrightarrow>
     \<exists>new. ls_output_tracks s' = Some (ts @ new) \<and>
       list_all2 (\<lambda>idx t. \<exists>w ws. res_ports env (''top<'' @ fmt_d idx @ ''>'') = Some (w # ws) \<and>
                              t = base_index (track_id w)) idxs new"
proof (induction idxs arbitrary: s ts)
  case Nil
  then show ?case by simp
next
  case (Cons idx idxs)
  from output_loop_step[OF Cons.prems] obtain w ws s2 where
    top: "res_ports env (''top<'' @ fmt_d idx @ ''>'') = Some (w # ws)"
    and tr: "ls_output_tracks s2 = Some (ts @ [base_index (track_id w)])"
    and run: "output_loop env sp idxs s2 = Inr s'" by blast
  from Cons.IH[OF run tr] obtain new where
    new: "ls_output_tracks s' = Some ((ts @ [base_index (track_id w)]) @ new)"
      "list_all2 (\<lambda>idx t. \<exists>w ws. res_ports env (''top<'' @ fmt_d idx @ ''>'') = Some (w # ws) \<and>
                              t = base_index (track_id w)) idxs new" by blast
  from new(1) have "ls_output_tracks s' = Some (ts @ (base_index (track_id w) # new))" by simp
  moreover from top new(2) have
    "list_all2 (\<lambda>idx t. \<exists>w ws. res_ports env (''top<'' @ fmt_d idx @ ''>'') = Some (w # ws) \<and>
                              t = base_index (track_id w)) (idx # idxs) (base_index (track_id w) # new)"
    by simp
  ultimately show ?case by blast
qed

lemma draw_layout_output_loop:
  assumes "CMLLoadSingle_draw_layout env nx sp s = Inr s'"
  shows "\<exists>s2 s3. ls_output_tracks s2 = Some [] \<and> output_loop env sp (py_range nx) s2 = Inr s3 \<and>
           ls_output_tracks s' = ls_output_tracks s3"
proof (cases "res_ports env ''dummy''")
  case None
  with assms show ?thesis by (simp add: CMLLoadSingle_draw_layout_def get_all_port_pins_def)
next
  case (Some dums)
  let ?s2 = "(fold (connect_dummy env sp) dums s)\<lparr>ls_output_tracks := Some []\<rparr>"
  show ?thesis
  proof (cases "output_loop env sp (py_range nx) ?s2")
    case (Inl e)
    with Some assms show ?thesis
      by (simp add: CMLLoadSingle_draw_layout_def get_all_port_pins_def Let_def)
  next
    case (Inr s3)
    with Some assms have "ls_output_tracks s' = ls_output_tracks s3"
      by (auto simp: CMLLoadSingle_draw_layout_def get_all_port_pins_def Let_def split: prod.splits)
    moreover have "ls_output_tracks ?s2 = Some []" by simp
    ultimately show ?thesis using Inr by blast
  qed
qed

text \<open>
  Claim C6. Before \<open>draw_layout\<close> is run, the property \<open>output_tracks\<close> of a
  \<open>CMLLoadSingle\<close> is \<open>None\<close>. When \<open>draw_layout\<close> completes, for a count
  \<open>nx = res_params['nx']\<close> that is not negative, the property is a list of length \<open>nx\<close>
  whose element \<open>i\<close>, for \<open>i\<close> from 0 to \<open>nx - 1\<close>, is the base index of the track of the
  first pin of the port \<open>top<i>\<close> of the resistor instance.
\<close>

theorem CMLLoadSingle_output_tracks_drawn:
  assumes "0 \<le> nx" and "CMLLoadSingle_draw_layout env nx show_pins CMLLoadSingle_init = Inr s'"
  shows "CMLLoadSingle_output_tracks CMLLoadSingle_init = None \<and>
         (\<exists>tracks. CMLLoadSingle_output_tracks s' = Some tracks \<and>
            int (length tracks) = nx \<and>
            (\<forall>i. 0 \<le> i \<and> i < nx \<longrightarrow>
               (\<exists>w ws. res_ports env (''top<'' @ fmt_d i @ ''>'') = Some (w # ws) \<and>
                        tracks ! nat i = base_index (track_id w))))"
proof -
  have init: "CMLLoadSingle_output_tracks CMLLoadSingle_init = None"
    by (simp add: CMLLoadSingle_output_tracks_def CMLLoadSingle_init_def)
  from draw_layout_output_loop[OF assms(2)] obtain s2 s3 where
    s2: "ls_output_tracks s2 = Some []" and run: "output_loop env show_pins (py_range nx) s2 = Inr s3"
    and eq: "ls_output_tracks s' = ls_output_tracks s3" by blast
  from output_loop_tracks[OF run s2] obtain tracks where
    tr: "ls_output_tracks s3 = Some tracks"
    and all2: "list_all2 (\<lambda>idx t. \<exists>w ws. res_ports env (''top<'' @ fmt_d idx @ ''>'') = Some (w # ws) \<and>
                              t = base_index (track_id w)) (py_range nx) tracks" by auto
  from all2 have len: "length (py_range nx) = length tracks" by (rule list_all2_lengthD)
  with assms(1) have lnx: "int (length tracks) = nx" by (simp add: py_range_def)
  have "\<exists>w ws. res_ports env (''top<'' @ fmt_d i @ ''>'') = Some (w # ws) \<and>
                        tracks ! nat i = base_index (track_id w)"
    if "0 \<le> i \<and> i < nx" for i
  proof -
    from that have lt: "nat i < length (py_range nx)" by (simp add: py_range_def)
    from that have "py_range nx ! nat i = i" by (simp add: py_range_def)
    with list_all2_nthD[OF all2 lt] show ?thesis by simp
  qed
  with init tr eq lnx show ?thesis by (simp add: CMLLoadSingle_output_tracks_def)
qed

text \<open>The theorem on the example instance with two resistors.\<close>

theorem CMLLoadSingle_output_tracks_drawn_witness:
  "(0::int) \<le> 2 \<and>
   map_sum id CMLLoadSingle_output_tracks (CMLLoadSingle_draw_layout ex_load_env 2 True CMLLoadSingle_init)
     = Inr (Some [3 / 2, 7 / 2]) \<and>
   CMLLoadSingle_output_tracks CMLLoadSingle_init = None"
proof -
  have f: "fmt_d 0 = ''0''" "fmt_d 1 = ''1''"
    by (simp_all add: fmt_d_def digits.simps digit_char_def)
  have r: "py_range 2 = [0, 1]" by (simp add: py_range_def upt_rec)
  obtain s' where d: "CMLLoadSingle_draw_layout ex_load_env 2 True CMLLoadSingle_init = Inr s'"
    and o: "CMLLoadSingle_output_tracks s' = Some [3 / 2, 7 / 2]"
    by (simp add: CMLLoadSingle_draw_layout_def get_all_port_pins_def ex_load_env_def r f
          CMLLoadSingle_output_tracks_def CMLLoadSingle_init_def ex_warr_def Let_def)
  have h: "(0::int) \<le> 2" by simp
  from CMLLoadSingle_output_tracks_drawn [OF h d] d o show ?thesis by simp
qed







section \<open>Properties of the placement in AmpBaseChain\<close>

text \<open>
  Claim C10. When the second master has a size and its block width \<open>xblk\<close> is positive,
  X2 is placed at \<open>x = (-x0 // xblk) * xblk\<close>, where \<open>x0\<close> is the right edge of X1. This
  coordinate is a multiple of \<open>xblk\<close>, and for \<open>x0 \<ge> 0\<close> it is at most 0, hence never to
  the right of the right edge of X1.
\<close>

theorem AmpBaseChain_draw_layout_x2:
  assumes "master_size master2 \<noteq> None" and "0 < fst (get_block_size (master_top_layer master2))"
  shows "\<exists>x. AmpBaseChain_draw_layout get_block_size master2 x0 =
               Inr [\<lparr>inst_name = ''X1'', inst_loc = (0, 0)\<rparr>, \<lparr>inst_name = ''X2'', inst_loc = (x, 0)\<rparr>] \<and>
           x = ((- x0) div fst (get_block_size (master_top_layer master2)))
                 * fst (get_block_size (master_top_layer master2)) \<and>
           fst (get_block_size (master_top_layer master2)) dvd x \<and>
           (0 \<le> x0 \<longrightarrow> x \<le> 0 \<and> x \<le> x0)"
proof -
  let ?xblk = "fst (get_block_size (master_top_layer master2))"
  let ?x = "((- x0) div ?xblk) * ?xblk"
  from assms have "inst2_x get_block_size master2 x0 = Inr ?x"
    by (auto simp: inst2_x_def Let_def)
  then have r: "AmpBaseChain_draw_layout get_block_size master2 x0 =
      Inr [\<lparr>inst_name = ''X1'', inst_loc = (0, 0)\<rparr>, \<lparr>inst_name = ''X2'', inst_loc = (?x, 0)\<rparr>]"
    by (simp add: AmpBaseChain_draw_layout_def)
  have d: "?xblk dvd ?x" by simp
  have le: "?x \<le> 0 \<and> ?x \<le> x0" if "0 \<le> x0"
  proof -
    from that assms(2) have "(- x0) div ?xblk \<le> 0"
      by (simp add: div_nonpos_pos_le0)
    with assms(2) have "?x \<le> 0" by (simp add: mult_le_0_iff)
    with that show ?thesis by simp
  qed
  from r d le show ?thesis by simp
qed

text \<open>The theorem for a right edge at 21 and blocks 8 wide: X2 is placed at -24.\<close>

theorem AmpBaseChain_draw_layout_x2_witness:
  "master_size ex_master2 \<noteq> None \<and> 0 < fst (ex_block_size (master_top_layer ex_master2)) \<and>
   AmpBaseChain_draw_layout ex_block_size ex_master2 21 =
     Inr [\<lparr>inst_name = ''X1'', inst_loc = (0, 0)\<rparr>, \<lparr>inst_name = ''X2'', inst_loc = (- 24, 0)\<rparr>]"
  using AmpBaseChain_draw_layout_x2 [of ex_master2 ex_block_size 21]
  by (simp add: ex_master2_def ex_block_size_def)

section \<open>Properties of the script\<close>

text \<open>
  Claim C9. For every \<open>tot_fg\<close>, and schematic parameters that do not themselves bind
  \<open>fg_tot\<close>, \<open>rxcore_sch\<close> creates the design module, calls \<open>design_specs\<close> once, with
  \<open>fg_tot\<close> equal to \<open>2 * tot_fg\<close> and every other keyword as in \<open>sch_params\<close>, and then
  calls \<open>implement_design\<close>. Applied to what \<open>rxcore\<close> returns, this is twice the number of
  fingers reported by the \<open>RXCore\<close> template, next to the dictionary \<open>params\<close> unchanged.
\<close>

theorem rxcore_sch_fg_tot:
  "(sch_params ''fg_tot'' = None \<longrightarrow>
      (\<exists>kw. rxcore_sch sch_params tot_fg =
               Inr \<lparr>dsn_lib = ''serdes_bm_templates'', dsn_cell = ''rxcore_ffe1_dfe4'',
                    dsn_calls = [DesignSpecs kw,
                                 ImplementDesign ''AAAFOO_serdes_rx2'' ''rxcore_ffe1_dfe4'' True]\<rparr> \<and>
             kw ''fg_tot'' = Some (PyInt (2 * tot_fg)) \<and>
             (\<forall>k. k \<noteq> ''fg_tot'' \<longrightarrow> kw k = sch_params k))) \<and>
   (\<exists>kw. rxcore_sch (fst (rxcore num_fingers)) (snd (rxcore num_fingers)) =
               Inr \<lparr>dsn_lib = ''serdes_bm_templates'', dsn_cell = ''rxcore_ffe1_dfe4'',
                    dsn_calls = [DesignSpecs kw,
                                 ImplementDesign ''AAAFOO_serdes_rx2'' ''rxcore_ffe1_dfe4'' True]\<rparr> \<and>
          kw ''fg_tot'' =
            Some (PyInt (2 * num_fingers (map_of rxcore_layout_defaults ++ map_of rxcore_params))) \<and>
          (\<forall>k. k \<noteq> ''fg_tot'' \<longrightarrow> kw k = map_of rxcore_params k))"
proof (intro conjI impI)
  assume n: "sch_params ''fg_tot'' = None"
  let ?kw = "sch_params(''fg_tot'' \<mapsto> PyInt (2 * tot_fg))"
  from n have "rxcore_sch sch_params tot_fg =
               Inr \<lparr>dsn_lib = ''serdes_bm_templates'', dsn_cell = ''rxcore_ffe1_dfe4'',
                    dsn_calls = [DesignSpecs ?kw,
                                 ImplementDesign ''AAAFOO_serdes_rx2'' ''rxcore_ffe1_dfe4'' True]\<rparr>"
    by (simp add: rxcore_sch_def create_design_module_def impl_lib_def Let_def)
  moreover have "?kw ''fg_tot'' = Some (PyInt (2 * tot_fg))" by simp
  moreover have "\<forall>k. k \<noteq> ''fg_tot'' \<longrightarrow> ?kw k = sch_params k" by simp
  ultimately show "\<exists>kw. rxcore_sch sch_params tot_fg =
               Inr \<lparr>dsn_lib = ''serdes_bm_templates'', dsn_cell = ''rxcore_ffe1_dfe4'',
                    dsn_calls = [DesignSpecs kw,
                                 ImplementDesign ''AAAFOO_serdes_rx2'' ''rxcore_ffe1_dfe4'' True]\<rparr> \<and>
             kw ''fg_tot'' = Some (PyInt (2 * tot_fg)) \<and>
             (\<forall>k. k \<noteq> ''fg_tot'' \<longrightarrow> kw k = sch_params k)"
    by (intro exI[of _ ?kw] conjI)
next
  let ?n = "num_fingers (map_of rxcore_layout_defaults ++ map_of rxcore_params)"
  let ?kw = "(map_of rxcore_params)(''fg_tot'' \<mapsto> PyInt (2 * ?n))"
  have none: "map_of rxcore_params ''fg_tot'' = None"
    by (simp add: rxcore_params_def)
  have r: "rxcore num_fingers = (map_of rxcore_params, ?n)"
    by (simp add: rxcore_def Let_def)
  from none have "rxcore_sch (map_of rxcore_params) ?n =
               Inr \<lparr>dsn_lib = ''serdes_bm_templates'', dsn_cell = ''rxcore_ffe1_dfe4'',
                    dsn_calls = [DesignSpecs ?kw,
                                 ImplementDesign ''AAAFOO_serdes_rx2'' ''rxcore_ffe1_dfe4'' True]\<rparr>"
    by (simp add: rxcore_sch_def create_design_module_def impl_lib_def Let_def)
  with r have "rxcore_sch (fst (rxcore num_fingers)) (snd (rxcore num_fingers)) =
               Inr \<lparr>dsn_lib = ''serdes_bm_templates'', dsn_cell = ''rxcore_ffe1_dfe4'',
                    dsn_calls = [DesignSpecs ?kw,
                                 ImplementDesign ''AAAFOO_serdes_rx2'' ''rxcore_ffe1_dfe4'' True]\<rparr>"
    by simp
  moreover have "?kw ''fg_tot'' = Some (PyInt (2 * ?n))" by simp
  moreover have "\<forall>k. k \<noteq> ''fg_tot'' \<longrightarrow> ?kw k = map_of rxcore_params k" by simp
  ultimately show "\<exists>kw. rxcore_sch (fst (rxcore num_fingers)) (snd (rxcore num_fingers)) =
               Inr \<lparr>dsn_lib = ''serdes_bm_templates'', dsn_cell = ''rxcore_ffe1_dfe4'',
                    dsn_calls = [DesignSpecs kw,
                                 ImplementDesign ''AAAFOO_serdes_rx2'' ''rxcore_ffe1_dfe4'' True]\<rparr> \<and>
          kw ''fg_tot'' = Some (PyInt (2 * ?n)) \<and>
          (\<forall>k. k \<noteq> ''fg_tot'' \<longrightarrow> kw k = map_of rxcore_params k)"
    by (intro exI[of _ ?kw] conjI)
qed

text \<open>The theorem for 38 fingers and schematic parameters that hold a channel length.\<close>

theorem rxcore_sch_fg_tot_witness:
  "[''lch'' \<mapsto> PyFloat (16 / 1000000000)] ''fg_tot'' = None \<and>
   rxcore_sch [''lch'' \<mapsto> PyFloat (16 / 1000000000)] 38 =
     Inr \<lparr>dsn_lib = ''serdes_bm_templates'', dsn_cell = ''rxcore_ffe1_dfe4'',
          dsn_calls = [DesignSpecs [''lch'' \<mapsto> PyFloat (16 / 1000000000), ''fg_tot'' \<mapsto> PyInt 76],
                       ImplementDesign ''AAAFOO_serdes_rx2'' ''rxcore_ffe1_dfe4'' True]\<rparr>"
proof -
  let ?p = "[''lch'' \<mapsto> PyFloat (16 / 1000000000)]"
  have n: "?p ''fg_tot'' = None" by simp
  from rxcore_sch_fg_tot [of ?p 38] n obtain kw where
    r: "rxcore_sch ?p 38 =
               Inr \<lparr>dsn_lib = ''serdes_bm_templates'', dsn_cell = ''rxcore_ffe1_dfe4'',
                    dsn_calls = [DesignSpecs kw,
                                 ImplementDesign ''AAAFOO_serdes_rx2'' ''rxcore_ffe1_dfe4'' True]\<rparr>"
    and f: "kw ''fg_tot'' = Some (PyInt (2 * 38))"
    and o: "\<forall>k. k \<noteq> ''fg_tot'' \<longrightarrow> kw k = ?p k" by blast
  have "kw = ?p(''fg_tot'' \<mapsto> PyInt 76)"
  proof
    fix k show "kw k = (?p(''fg_tot'' \<mapsto> PyInt 76)) k"
      using f o by (cases "k = ''fg_tot''") simp_all
  qed
  with r n show ?thesis by simp
qed


end
